theory Spec2Isabelle
  imports Main "HOL-Library.Sublist" "HOL-Library.AList"
begin

section \<open>Exceptions\<close>

text \<open>
  The exceptions the initializer can meet.  The first four are subclasses of Python's
  \<^verbatim>\<open>OSError\<close>; the last three are exception classes of the \<^verbatim>\<open>sqlite3\<close> module and
  are not \<^verbatim>\<open>OSError\<close>s.
\<close>

datatype os_error = FileNotFoundError | FileExistsError | NotADirectoryError | PermissionError

datatype sqlite_error = OperationalError string | DatabaseError string | IntegrityError string
  | ProgrammingError string

datatype py_error = OSError os_error | SqliteError sqlite_error

section \<open>The relational store\<close>

subsection \<open>Table declarations\<close>

datatype sql_type = INTEGER | TEXT | REAL | DATE | TIMESTAMP | DATETIME

datatype default_expr = Literal string | CURRENT_TIMESTAMP

datatype column_constraint = PrimaryKeyAutoincrement | NotNull | Default default_expr

datatype column_def = Column (col_name: string) (col_type: sql_type)
  (col_constraints: "column_constraint list")

text \<open>\<^verbatim>\<open>FOREIGN KEY(c) REFERENCES t(k)\<close> is \<open>ForeignKey c t k\<close>.\<close>

datatype foreign_key = ForeignKey (fk_column: string) (fk_table: string) (fk_parent_column: string)

datatype table_def = TableDef (tbl_name: string) (tbl_columns: "column_def list")
  (tbl_foreign_keys: "foreign_key list")

text \<open>The only kind of statement the initializer issues.\<close>

datatype statement = CreateTableIfNotExists table_def

subsection \<open>Stored data\<close>

text \<open>
  A timestamp is the reading of the clock, in seconds.  A row keeps its rowid, for which an
  \<^verbatim>\<open>INTEGER PRIMARY KEY\<close> column is an alias, apart from the other cells.
\<close>

datatype sql_value = SqlNull | SqlInteger int | SqlText string | SqlTimestamp nat

record row =
  rowid :: int
  cells :: "(string \<times> sql_value) list"

text \<open>
  \<open>tbl_seq\<close> is the table's entry in SQLite's bookkeeping table \<^verbatim>\<open>sqlite_sequence\<close>
  (0 while the entry is absent): the largest rowid the table has ever held.
\<close>

record table =
  tbl_decl :: table_def
  tbl_rows :: "row list"
  tbl_seq :: int

datatype db_object = Table table | View string | Index string

text \<open>The schema of a database file, in creation order (\<^verbatim>\<open>sqlite_master\<close>).\<close>

type_synonym database = "(string \<times> db_object) list"

definition empty_database :: database where
  "empty_database = []"

subsection \<open>CREATE TABLE IF NOT EXISTS\<close>

text \<open>
  SQLite: when a table or a view of that name exists, the statement has no effect and no
  error is returned, whatever the shape of the existing object; an existing index of that
  name is an error even with \<^verbatim>\<open>IF NOT EXISTS\<close>.
\<close>

definition create_table_if_not_exists :: "table_def \<Rightarrow> database \<Rightarrow> sqlite_error + database" where
  "create_table_if_not_exists d db =
     (case map_of db (tbl_name d) of
        Some (Table t) \<Rightarrow> Inr db
      | Some (View v) \<Rightarrow> Inr db
      | Some (Index i) \<Rightarrow>
          Inl (OperationalError (''there is already an index named '' @ tbl_name d))
      | None \<Rightarrow>
          Inr (db @ [(tbl_name d, Table \<lparr>tbl_decl = d, tbl_rows = [], tbl_seq = 0\<rparr>)]))"

section \<open>The file system\<close>

text \<open>
  A directory is writable or not; a regular file holds a SQLite database (an empty file is
  the empty database) or something else.
\<close>

datatype file_content = SqliteFile database | OtherFile

datatype node = Dir bool | RegularFile file_content

text \<open>
  The file system maps a resolved path, the list of its components, to the node there.
  \<open>[]\<close> is the working directory, and an absolute path has \<open>''/''\<close> as its first
  component.  Symbolic links and \<^verbatim>\<open>..\<close> are not interpreted.
\<close>

type_synonym filesystem = "string list \<rightharpoonup> node"

fun split_sep :: "string \<Rightarrow> string list" where
  "split_sep [] = [[]]"
| "split_sep (c # cs) =
     (if c = CHR ''/'' then [] # split_sep cs
      else (case split_sep cs of [] \<Rightarrow> [[c]] | x # xs \<Rightarrow> (c # x) # xs))"

definition resolve :: "string \<Rightarrow> string list" where
  "resolve p = (if take 1 p = ''/'' then [''/''] else [])
     @ filter (\<lambda>s. s \<noteq> [] \<and> s \<noteq> ''.'') (split_sep p)"

text \<open>
  \<^verbatim>\<open>posixpath.dirname\<close>: everything up to and including the last slash, with the trailing
  slashes stripped unless nothing else is left.
\<close>

definition dirname :: "string \<Rightarrow> string" where
  "dirname p =
     (let head = rev (dropWhile (\<lambda>c. c \<noteq> CHR ''/'') (rev p))
      in if head \<noteq> [] \<and> head \<noteq> replicate (length head) (CHR ''/'')
         then rev (dropWhile (\<lambda>c. c = CHR ''/'') (rev head)) else head)"


definition isdir :: "filesystem \<Rightarrow> string list \<Rightarrow> bool" where
  "isdir fs p = (case fs p of Some (Dir w) \<Rightarrow> True | _ \<Rightarrow> False)"

text \<open>
  \<^verbatim>\<open>mkdir(2)\<close> at a resolved path.  A directory the process creates is writable by it.
\<close>

definition mkdir_at :: "string list \<Rightarrow> filesystem \<Rightarrow> (os_error + unit) \<times> filesystem" where
  "mkdir_at p fs =
     (case fs p of
        Some n \<Rightarrow> (Inl FileExistsError, fs)
      | None \<Rightarrow>
          (case fs (butlast p) of
             None \<Rightarrow> (Inl FileNotFoundError, fs)
           | Some (RegularFile c) \<Rightarrow> (Inl NotADirectoryError, fs)
           | Some (Dir writable) \<Rightarrow>
               if writable then (Inr (), fs(p \<mapsto> Dir True)) else (Inl PermissionError, fs)))"

text \<open>
  The last step of \<^verbatim>\<open>os.makedirs\<close>: the leaf is made, and an error of that step is
  dropped when \<open>exist_ok\<close> is set and the leaf is a directory.
\<close>

definition mkdir_leaf :: "string list \<Rightarrow> bool \<Rightarrow> filesystem \<Rightarrow> (os_error + unit) \<times> filesystem" where
  "mkdir_leaf p exist_ok fs =
     (case mkdir_at p fs of
        (Inl e, fs1) \<Rightarrow> if \<not> exist_ok \<or> \<not> isdir fs1 p then (Inl e, fs1) else (Inr (), fs1)
      | (Inr u, fs1) \<Rightarrow> (Inr (), fs1))"

text \<open>
  \<^verbatim>\<open>os.makedirs\<close> at a resolved path: when the parent is missing it is made first, in the
  same way (a \<^verbatim>\<open>FileExistsError\<close> from there is swallowed); then comes the leaf.
\<close>

function makedirs_at :: "string list \<Rightarrow> bool \<Rightarrow> filesystem \<Rightarrow> (os_error + unit) \<times> filesystem" where
  "makedirs_at p exist_ok fs =
     (if p \<noteq> [] \<and> fs (butlast p) = None
      then (case makedirs_at (butlast p) exist_ok fs of
              (Inl e, fs1) \<Rightarrow>
                if e = FileExistsError then mkdir_leaf p exist_ok fs1 else (Inl e, fs1)
            | (Inr u, fs1) \<Rightarrow> mkdir_leaf p exist_ok fs1)
      else mkdir_leaf p exist_ok fs)"
  by pat_completeness auto
termination
  by (relation "measure (\<lambda>(p, e, fs). length p)") auto

text \<open>
  \<^verbatim>\<open>os.makedirs(name, exist_ok=...)\<close>.  The empty name is no path at all: the system call
  fails with \<^verbatim>\<open>ENOENT\<close>, and \<^verbatim>\<open>os.path.isdir('')\<close> is false, so the error is raised
  whatever \<open>exist_ok\<close> is.
\<close>

definition makedirs :: "string \<Rightarrow> bool \<Rightarrow> filesystem \<Rightarrow> (os_error + unit) \<times> filesystem" where
  "makedirs name exist_ok fs =
     (if name = [] then (Inl FileNotFoundError, fs) else makedirs_at (resolve name) exist_ok fs)"

section \<open>The world of the process\<close>

text \<open>
  The world is the file system, the connections that are open (each by the resolved path of
  its file) and what has been written to the two output streams.
\<close>

record world =
  fs :: filesystem
  open_conns :: "string list list"
  stdout :: "string list"
  stderr :: "string list"

datatype connection = Connection "string list"

datatype cursor = Cursor connection

text \<open>A statement of the program either returns a value or raises, and leaves a world.\<close>

type_synonym 'a action = "world \<Rightarrow> (py_error + 'a) \<times> world"

definition and_then :: "'a action \<Rightarrow> ('a \<Rightarrow> 'b action) \<Rightarrow> 'b action" where
  "and_then m f w = (case m w of (Inl e, w1) \<Rightarrow> (Inl e, w1) | (Inr x, w1) \<Rightarrow> f x w1)"

definition os_makedirs :: "string \<Rightarrow> bool \<Rightarrow> unit action" where
  "os_makedirs name exist_ok w =
     (case makedirs name exist_ok (fs w) of
        (Inl e, fs1) \<Rightarrow> (Inl (OSError e), w\<lparr>fs := fs1\<rparr>)
      | (Inr u, fs1) \<Rightarrow> (Inr (), w\<lparr>fs := fs1\<rparr>))"

definition unable_to_open :: py_error where
  "unable_to_open = SqliteError (OperationalError ''unable to open database file'')"

text \<open>
  \<^verbatim>\<open>sqlite3.connect(path)\<close> opens the file at the path, and creates it, empty, when nothing
  is there and the directory allows it.  The content of an existing file is not read yet,
  and the permissions of an existing file are not part of the model.
  (The names \<^verbatim>\<open>''\<close> and \<^verbatim>\<open>:memory:\<close>, which SQLite takes for private databases, have an
  empty directory part.)
\<close>

definition connect :: "string \<Rightarrow> connection action" where
  "connect path w =
     (let p = resolve path in
      case fs w p of
        Some (RegularFile c) \<Rightarrow> (Inr (Connection p), w\<lparr>open_conns := p # open_conns w\<rparr>)
      | Some (Dir d) \<Rightarrow> (Inl unable_to_open, w)
      | None \<Rightarrow>
          (case fs w (butlast p) of
             Some (Dir writable) \<Rightarrow>
               if writable
               then (Inr (Connection p),
                     w\<lparr>fs := (fs w)(p \<mapsto> RegularFile (SqliteFile empty_database)),
                       open_conns := p # open_conns w\<rparr>)
               else (Inl unable_to_open, w)
           | _ \<Rightarrow> (Inl unable_to_open, w)))"

definition new_cursor :: "connection \<Rightarrow> cursor action" where
  "new_cursor conn w = (Inr (Cursor conn), w)"

text \<open>
  \<^verbatim>\<open>cursor.execute\<close> of a \<^verbatim>\<open>CREATE TABLE\<close> statement.  The \<^verbatim>\<open>sqlite3\<close> module opens no
  transaction for such a statement, so its effect is in the file at once.
\<close>

fun execute :: "cursor \<Rightarrow> statement \<Rightarrow> unit action" where
  "execute (Cursor (Connection p)) (CreateTableIfNotExists d) w =
     (if p \<notin> set (open_conns w)
      then (Inl (SqliteError (ProgrammingError ''Cannot operate on a closed database.'')), w)
      else case fs w p of
        Some (RegularFile (SqliteFile db)) \<Rightarrow>
          (case create_table_if_not_exists d db of
             Inl e \<Rightarrow> (Inl (SqliteError e), w)
           | Inr db1 \<Rightarrow> (Inr (), w\<lparr>fs := (fs w)(p \<mapsto> RegularFile (SqliteFile db1))\<rparr>))
      | Some (RegularFile OtherFile) \<Rightarrow>
          (Inl (SqliteError (DatabaseError ''file is not a database'')), w)
      | _ \<Rightarrow> (Inl unable_to_open, w))"

text \<open>\<^verbatim>\<open>conn.commit()\<close>: no transaction is open, there is nothing to write.\<close>

fun commit :: "connection \<Rightarrow> unit action" where
  "commit (Connection p) w =
     (if p \<notin> set (open_conns w)
      then (Inl (SqliteError (ProgrammingError ''Cannot operate on a closed database.'')), w)
      else (Inr (), w))"

text \<open>\<^verbatim>\<open>conn.close()\<close> releases the connection; closing twice is allowed.\<close>

fun close_conn :: "connection \<Rightarrow> unit action" where
  "close_conn (Connection p) w = (Inr (), w\<lparr>open_conns := remove1 p (open_conns w)\<rparr>)"

section \<open>The initializer\<close>

definition goals_sql :: statement where
  "goals_sql = CreateTableIfNotExists (TableDef ''goals''
     [Column ''id'' INTEGER [PrimaryKeyAutoincrement],
      Column ''title'' TEXT [NotNull],
      Column ''description'' TEXT [],
      Column ''type'' TEXT [],
      Column ''deadline'' DATE [],
      Column ''priority'' TEXT [],
      Column ''status'' TEXT [Default (Literal ''active'')],
      Column ''created_at'' TIMESTAMP [Default CURRENT_TIMESTAMP]]
     [])"

definition tasks_sql :: statement where
  "tasks_sql = CreateTableIfNotExists (TableDef ''tasks''
     [Column ''id'' INTEGER [PrimaryKeyAutoincrement],
      Column ''goal_id'' INTEGER [],
      Column ''title'' TEXT [NotNull],
      Column ''description'' TEXT [],
      Column ''status'' TEXT [Default (Literal ''pending'')],
      Column ''deadline'' DATE [],
      Column ''estimated_hours'' REAL [],
      Column ''created_at'' TIMESTAMP [Default CURRENT_TIMESTAMP]]
     [ForeignKey ''goal_id'' ''goals'' ''id''])"

definition daily_logs_sql :: statement where
  "daily_logs_sql = CreateTableIfNotExists (TableDef ''daily_logs''
     [Column ''id'' INTEGER [PrimaryKeyAutoincrement],
      Column ''date'' DATE [NotNull],
      Column ''notes'' TEXT [],
      Column ''created_at'' TIMESTAMP [Default CURRENT_TIMESTAMP]]
     [])"

definition calendar_events_sql :: statement where
  "calendar_events_sql = CreateTableIfNotExists (TableDef ''calendar_events''
     [Column ''id'' INTEGER [PrimaryKeyAutoincrement],
      Column ''external_id'' TEXT [],
      Column ''title'' TEXT [],
      Column ''start_time'' DATETIME [],
      Column ''end_time'' DATETIME [],
      Column ''source'' TEXT [],
      Column ''created_at'' TIMESTAMP [Default CURRENT_TIMESTAMP]]
     [])"

definition patterns_sql :: statement where
  "patterns_sql = CreateTableIfNotExists (TableDef ''patterns''
     [Column ''id'' INTEGER [PrimaryKeyAutoincrement],
      Column ''pattern_type'' TEXT [],
      Column ''data'' TEXT [],
      Column ''created_at'' TIMESTAMP [Default CURRENT_TIMESTAMP]]
     [])"

definition initialize_database :: "string \<Rightarrow> unit action" where
  "initialize_database db_path =
     and_then (os_makedirs (dirname db_path) True) (\<lambda>u.
     and_then (connect db_path) (\<lambda>conn.
     and_then (new_cursor conn) (\<lambda>cursor.
     and_then (execute cursor goals_sql) (\<lambda>u.
     and_then (execute cursor tasks_sql) (\<lambda>u.
     and_then (execute cursor daily_logs_sql) (\<lambda>u.
     and_then (execute cursor calendar_events_sql) (\<lambda>u.
     and_then (execute cursor patterns_sql) (\<lambda>u.
     and_then (commit conn) (\<lambda>u.
     close_conn conn)))))))))"


section \<open>The command-line entry point\<close>



section \<open>Rows\<close>

text \<open>
  The initializer writes no rows: other components insert and delete them.  What follows is
  the behaviour of SQLite for one \<^verbatim>\<open>INSERT\<close> of a single row and one \<^verbatim>\<open>DELETE\<close> by id,
  as far as the declarations of the schema decide it.
\<close>

definition is_pk :: "column_def \<Rightarrow> bool" where
  "is_pk c = (PrimaryKeyAutoincrement \<in> set (col_constraints c))"

definition is_not_null :: "column_def \<Rightarrow> bool" where
  "is_not_null c = (NotNull \<in> set (col_constraints c))"

definition pk_name :: "table_def \<Rightarrow> string option" where
  "pk_name d = map_option col_name (find is_pk (tbl_columns d))"

fun default_of :: "column_constraint list \<Rightarrow> default_expr option" where
  "default_of [] = None"
| "default_of (Default e # cs) = Some e"
| "default_of (c # cs) = default_of cs"

text \<open>The value of a column the \<^verbatim>\<open>INSERT\<close> does not name, at clock reading \<open>now\<close>.\<close>

definition default_value :: "nat \<Rightarrow> column_def \<Rightarrow> sql_value" where
  "default_value now c =
     (case default_of (col_constraints c) of
        None \<Rightarrow> SqlNull
      | Some (Literal s) \<Rightarrow> SqlText s
      | Some CURRENT_TIMESTAMP \<Rightarrow> SqlTimestamp now)"

definition MAX_ROWID :: int where
  "MAX_ROWID = 9223372036854775807"

definition database_full :: sqlite_error where
  "database_full = OperationalError ''database or disk is full''"

definition largest_rowid :: "row list \<Rightarrow> int option" where
  "largest_rowid rs = (case rs of [] \<Rightarrow> None | r # rs1 \<Rightarrow> Some (fold max (map rowid rs1) (rowid r)))"

text \<open>
  The rowid SQLite picks by itself: one more than the largest in the table, and with
  \<^verbatim>\<open>AUTOINCREMENT\<close> also more than the recorded largest ever; with \<^verbatim>\<open>AUTOINCREMENT\<close> the
  largest possible rowid is never followed by another.
\<close>

definition new_rowid :: "table \<Rightarrow> sqlite_error + int" where
  "new_rowid t =
     (let v = (case largest_rowid (tbl_rows t) of None \<Rightarrow> 1 | Some m \<Rightarrow> m + 1)
      in if largest_rowid (tbl_rows t) = Some MAX_ROWID then Inl database_full
         else if pk_name (tbl_decl t) = None then Inr v
         else if MAX_ROWID \<le> tbl_seq t then Inl database_full
         else Inr (max v (tbl_seq t + 1)))"

text \<open>
  The rowid of the new row, from what the \<^verbatim>\<open>INSERT\<close> gives for the primary key: nothing or
  \<^verbatim>\<open>NULL\<close> asks SQLite to pick, an integer is taken as it is when it is free.  (A text is
  taken not to spell a number.)
\<close>

definition choose_rowid :: "table \<Rightarrow> sql_value option \<Rightarrow> sqlite_error + int" where
  "choose_rowid t given =
     (case given of
        None \<Rightarrow> new_rowid t
      | Some SqlNull \<Rightarrow> new_rowid t
      | Some (SqlInteger i) \<Rightarrow>
          if i < - MAX_ROWID - 1 \<or> MAX_ROWID < i then Inl (IntegrityError ''datatype mismatch'')
          else if i \<in> set (map rowid (tbl_rows t))
          then Inl (IntegrityError ''UNIQUE constraint failed'')
          else Inr i
      | Some v \<Rightarrow> Inl (IntegrityError ''datatype mismatch''))"

definition given_value :: "nat \<Rightarrow> (string \<times> sql_value) list \<Rightarrow> column_def \<Rightarrow> sql_value" where
  "given_value now given c =
     (case map_of given (col_name c) of Some v \<Rightarrow> v | None \<Rightarrow> default_value now c)"

definition insert_into :: "nat \<Rightarrow> (string \<times> sql_value) list \<Rightarrow> table \<Rightarrow> sqlite_error + int \<times> table" where
  "insert_into now given t =
     (let cols = tbl_columns (tbl_decl t);
          others = filter (\<lambda>c. Some (col_name c) \<noteq> pk_name (tbl_decl t)) cols
      in if \<not> distinct (map fst given) \<or> \<not> set (map fst given) \<subseteq> set (map col_name cols)
         then Inl (OperationalError ''no such column, or a column named twice'')
         else case choose_rowid t (case pk_name (tbl_decl t) of None \<Rightarrow> None | Some k \<Rightarrow> map_of given k) of
           Inl e \<Rightarrow> Inl e
         | Inr rid \<Rightarrow>
             if list_ex (\<lambda>c. is_not_null c \<and> given_value now given c = SqlNull) others
             then Inl (IntegrityError ''NOT NULL constraint failed'')
             else Inr (rid,
                       t\<lparr>tbl_rows := tbl_rows t
                            @ [\<lparr>rowid = rid,
                                cells = map (\<lambda>c. (col_name c, given_value now given c)) others\<rparr>],
                         tbl_seq := (if pk_name (tbl_decl t) = None then tbl_seq t
                                     else max (tbl_seq t) rid)\<rparr>))"

definition row_value :: "table_def \<Rightarrow> row \<Rightarrow> string \<Rightarrow> sql_value" where
  "row_value d r c =
     (if pk_name d = Some c then SqlInteger (rowid r)
      else case map_of (cells r) c of Some v \<Rightarrow> v | None \<Rightarrow> SqlNull)"

text \<open>Whether the parent table holds a row for the value of a foreign key.\<close>

definition parent_present :: "database \<Rightarrow> foreign_key \<Rightarrow> sql_value \<Rightarrow> bool" where
  "parent_present db k v =
     (v = SqlNull \<or>
      (case map_of db (fk_table k) of
         Some (Table pt) \<Rightarrow>
           list_ex (\<lambda>r. row_value (tbl_decl pt) r (fk_parent_column k) = v) (tbl_rows pt)
       | _ \<Rightarrow> False))"

text \<open>Whether some row of some table refers to row \<open>r\<close> of the table \<open>name\<close>.\<close>

definition referenced :: "database \<Rightarrow> string \<Rightarrow> table_def \<Rightarrow> row \<Rightarrow> bool" where
  "referenced db name d r =
     list_ex (\<lambda>(n, ob). case ob of
        Table ct \<Rightarrow>
          list_ex (\<lambda>k. fk_table k = name \<and>
              list_ex (\<lambda>cr. row_value (tbl_decl ct) cr (fk_column k) \<noteq> SqlNull \<and>
                            row_value (tbl_decl ct) cr (fk_column k)
                              = row_value d r (fk_parent_column k))
                (tbl_rows ct))
            (tbl_foreign_keys (tbl_decl ct))
      | _ \<Rightarrow> False) db"

text \<open>
  \<^verbatim>\<open>INSERT INTO name (...) VALUES (...)\<close> on a connection whose setting
  \<^verbatim>\<open>PRAGMA foreign_keys\<close> is \<open>foreign_keys\<close> (SQLite's default is off, and the initializer
  stores no setting).  The result is the rowid of the new row and the new database.
\<close>

definition insert_row :: "bool \<Rightarrow> nat \<Rightarrow> string \<Rightarrow> (string \<times> sql_value) list \<Rightarrow> database
    \<Rightarrow> sqlite_error + int \<times> database" where
  "insert_row foreign_keys now name given db =
     (case map_of db name of
        Some (Table t) \<Rightarrow>
          (case insert_into now given t of
             Inl e \<Rightarrow> Inl e
           | Inr (rid, t1) \<Rightarrow>
               if foreign_keys \<and>
                  list_ex (\<lambda>k. \<not> parent_present db k
                                   (row_value (tbl_decl t) (last (tbl_rows t1)) (fk_column k)))
                    (tbl_foreign_keys (tbl_decl t))
               then Inl (IntegrityError ''FOREIGN KEY constraint failed'')
               else Inr (rid, AList.update name (Table t1) db))
      | _ \<Rightarrow> Inl (OperationalError (''no such table: '' @ name)))"

text \<open>
  \<^verbatim>\<open>DELETE FROM name WHERE id = rid\<close>.  The schema names no action for a deleted parent,
  so with the setting on a referenced row cannot be deleted, and no row is ever deleted
  with it.
\<close>

definition delete_row :: "bool \<Rightarrow> string \<Rightarrow> int \<Rightarrow> database \<Rightarrow> sqlite_error + database" where
  "delete_row foreign_keys name rid db =
     (case map_of db name of
        Some (Table t) \<Rightarrow>
          if foreign_keys \<and>
             list_ex (\<lambda>r. rowid r = rid \<and> referenced db name (tbl_decl t) r) (tbl_rows t)
          then Inl (IntegrityError ''FOREIGN KEY constraint failed'')
          else Inr (AList.update name
                      (Table (t\<lparr>tbl_rows := filter (\<lambda>r. rowid r \<noteq> rid) (tbl_rows t)\<rparr>)) db)
      | _ \<Rightarrow> Inl (OperationalError (''no such table: '' @ name)))"

text \<open>
  What other components do to the rows, one statement at a time; a statement that fails
  changes nothing.  An event records a successful insert: the table, the rowid, and whether
  SQLite picked the rowid.
\<close>

datatype row_op = InsertRow bool nat string "(string \<times> sql_value) list" | DeleteRow bool string int

datatype insert_event = Inserted (ev_table: string) (ev_rowid: int) (ev_auto: bool)

definition picks_rowid :: "database \<Rightarrow> string \<Rightarrow> (string \<times> sql_value) list \<Rightarrow> bool" where
  "picks_rowid db name given =
     (case map_of db name of
        Some (Table t) \<Rightarrow>
          (case pk_name (tbl_decl t) of
             None \<Rightarrow> True
           | Some k \<Rightarrow> map_of given k = None \<or> map_of given k = Some SqlNull)
      | _ \<Rightarrow> False)"

fun apply_op :: "row_op \<Rightarrow> database \<Rightarrow> insert_event list \<times> database" where
  "apply_op (InsertRow foreign_keys now name given) db =
     (case insert_row foreign_keys now name given db of
        Inl e \<Rightarrow> ([], db)
      | Inr (rid, db1) \<Rightarrow> ([Inserted name rid (picks_rowid db name given)], db1))"
| "apply_op (DeleteRow foreign_keys name rid) db =
     (case delete_row foreign_keys name rid db of Inl e \<Rightarrow> ([], db) | Inr db1 \<Rightarrow> ([], db1))"

fun apply_ops :: "row_op list \<Rightarrow> database \<Rightarrow> insert_event list \<times> database" where
  "apply_ops [] db = ([], db)"
| "apply_ops (x # xs) db =
     (case apply_op x db of (es, db1) \<Rightarrow>
        (case apply_ops xs db1 of (es1, db2) \<Rightarrow> (es @ es1, db2)))"

text \<open>The same statements, on the database in the file at a resolved path.\<close>

definition apply_ops_at :: "string list \<Rightarrow> row_op list \<Rightarrow> world \<Rightarrow> world" where
  "apply_ops_at p xs w =
     (case fs w p of
        Some (RegularFile (SqliteFile db)) \<Rightarrow>
          w\<lparr>fs := (fs w)(p \<mapsto> RegularFile (SqliteFile (snd (apply_ops xs db))))\<rparr>
      | _ \<Rightarrow> w)"

section \<open>The schema as a whole\<close>

fun statement_table :: "statement \<Rightarrow> table_def" where
  "statement_table (CreateTableIfNotExists d) = d"

text \<open>The declarations of the five statements, in the order the initializer issues them.\<close>

definition schema :: "table_def list" where
  "schema = map statement_table
     [goals_sql, tasks_sql, daily_logs_sql, calendar_events_sql, patterns_sql]"

text \<open>A cursor executing the statements for a list of declarations, one after the other.\<close>

fun execute_all :: "cursor \<Rightarrow> table_def list \<Rightarrow> unit action" where
  "execute_all c [] w = (Inr (), w)"
| "execute_all c (d # ds) w =
     and_then (execute c (CreateTableIfNotExists d)) (\<lambda>u. execute_all c ds) w"

text \<open>A world with the given nodes, no open connection and nothing written yet.\<close>

definition world_of :: "(string list \<times> node) list \<Rightarrow> world" where
  "world_of nodes = \<lparr>fs = map_of nodes, open_conns = [], stdout = [], stderr = []\<rparr>"

text \<open>The database in the file at a path, when there is one.\<close>

definition database_at :: "world \<Rightarrow> string \<Rightarrow> database option" where
  "database_at w path =
     (case fs w (resolve path) of Some (RegularFile (SqliteFile db)) \<Rightarrow> Some db | _ \<Rightarrow> None)"

text \<open>Issuing declarations in turn, up to the first that fails.\<close>

fun create_tables :: "table_def list \<Rightarrow> database \<Rightarrow> (sqlite_error + unit) \<times> database" where
  "create_tables [] db = (Inr (), db)"
| "create_tables (d # ds) db =
     (case create_table_if_not_exists d db of
        Inl e \<Rightarrow> (Inl e, db)
      | Inr db1 \<Rightarrow> create_tables ds db1)"

definition new_table :: "table_def \<Rightarrow> string \<times> db_object" where
  "new_table d = (tbl_name d, Table \<lparr>tbl_decl = d, tbl_rows = [], tbl_seq = 0\<rparr>)"

text \<open>The database of a file the initializer has just created.\<close>

definition fresh_database :: database where
  "fresh_database = map new_table schema"


section \<open>Some worlds\<close>

text \<open>An empty, writable working directory.\<close>

definition empty_cwd :: world where
  "empty_cwd = world_of [([], Dir True)]"

text \<open>A working directory with a directory \<^verbatim>\<open>ro\<close> that is not writable.\<close>

definition readonly_dir :: world where
  "readonly_dir = world_of [([], Dir True), ([''ro''], Dir False)]"

text \<open>A file at the default path that is not a SQLite database.\<close>

definition other_file :: world where
  "other_file = world_of [([], Dir True), ([''data''], Dir True),
     ([''data'', ''nexus.db''], RegularFile OtherFile)]"

section \<open>Notions for the statements below\<close>








text \<open>The entry of a table in \<^verbatim>\<open>sqlite_sequence\<close>.\<close>

definition recorded_largest :: "database \<Rightarrow> string \<Rightarrow> int" where
  "recorded_largest db n = (case map_of db n of Some (Table t) \<Rightarrow> tbl_seq t | _ \<Rightarrow> 0)"

text \<open>Every table of the database has an \<^verbatim>\<open>AUTOINCREMENT\<close> primary key.\<close>

definition all_autoincrement :: "database \<Rightarrow> bool" where
  "all_autoincrement db =
     list_all (\<lambda>(n, ob). case ob of Table t \<Rightarrow> pk_name (tbl_decl t) \<noteq> None | _ \<Rightarrow> True) db"

text \<open>
  Of two inserts, the first earlier: when the later one is into the same table and SQLite
  picked its rowid, that rowid is the larger.
\<close>

definition later_is_larger :: "insert_event \<Rightarrow> insert_event \<Rightarrow> bool" where
  "later_is_larger e e1 = (ev_table e1 = ev_table e \<and> ev_auto e1 \<longrightarrow> ev_rowid e < ev_rowid e1)"


definition sample_ops :: "row_op list" where
  "sample_ops =
     [InsertRow False 1 ''goals'' [(''title'', SqlText ''a'')],
      InsertRow False 2 ''goals'' [(''title'', SqlText ''b'')],
      DeleteRow False ''goals'' 2,
      InsertRow False 3 ''goals'' [(''title'', SqlText ''c'')],
      InsertRow False 4 ''goals'' [(''title'', SqlText ''d''), (''id'', SqlInteger 10)],
      DeleteRow False ''goals'' 10,
      InsertRow False 5 ''goals'' [(''title'', SqlText ''e'')]]"

section \<open>Directories\<close>

declare makedirs_at.simps [simp del]

lemma mkdir_at_frame:
  "mkdir_at p f = (r, f') \<Longrightarrow> f' q = f q \<or> (f q = None \<and> f' q = Some (Dir True) \<and> q = p)"
  by (auto simp: mkdir_at_def split: option.splits node.splits if_splits)

lemma mkdir_leaf_frame:
  "mkdir_leaf p e f = (r, f') \<Longrightarrow> f' q = f q \<or> (f q = None \<and> f' q = Some (Dir True) \<and> q = p)"
  by (auto simp: mkdir_leaf_def split: prod.splits sum.splits if_splits dest: mkdir_at_frame)

lemma makedirs_at_frame:
  "makedirs_at p e f = (r, f') \<Longrightarrow> f' q = f q \<or> (f q = None \<and> f' q = Some (Dir True) \<and> prefix q p)"
proof (induction p e f arbitrary: r f' rule: makedirs_at.induct)
  case (1 p e f)
  show ?case
  proof (cases "p \<noteq> [] \<and> f (butlast p) = None")
    case True
    obtain r1 f1 where rec: "makedirs_at (butlast p) e f = (r1, f1)"
      by (cases "makedirs_at (butlast p) e f")
    have "f1 q = f q \<or> (f q = None \<and> f1 q = Some (Dir True) \<and> prefix q (butlast p))"
      using "1.IH" [OF True rec] .
    then have step1: "f1 q = f q \<or> (f q = None \<and> f1 q = Some (Dir True) \<and> prefix q p)"
      using prefix_order.trans [OF _ prefixeq_butlast] by blast
    show ?thesis
    proof (cases "r1 = Inl FileExistsError \<or> (\<exists>u. r1 = Inr u)")
      case leaf: True
      then have "mkdir_leaf p e f1 = (r, f')"
        using "1.prems" True rec by (subst (asm) makedirs_at.simps) (auto split: sum.splits)
      from mkdir_leaf_frame [OF this, of q] step1 show ?thesis by auto
    next
      case False
      then have "f' = f1"
        using "1.prems" True rec by (subst (asm) makedirs_at.simps) (auto split: sum.splits if_splits)
      with step1 show ?thesis by simp
    qed
  next
    case False
    then have "mkdir_leaf p e f = (r, f')"
      using "1.prems" by (subst (asm) makedirs_at.simps) auto
    from mkdir_leaf_frame [OF this, of q] show ?thesis by auto
  qed
qed

lemma mkdir_leaf_ok:
  "mkdir_leaf p True f = (Inr u, f') \<Longrightarrow> isdir f' p"
  by (auto simp: mkdir_leaf_def mkdir_at_def isdir_def split: prod.splits sum.splits if_splits option.splits node.splits)

lemma mkdir_leaf_exists:
  "isdir f p \<Longrightarrow> mkdir_leaf p True f = (Inr (), f)"
  by (auto simp: mkdir_leaf_def mkdir_at_def isdir_def split: prod.splits sum.splits if_splits option.splits node.splits)


lemma makedirs_at_exists:
  "isdir f p \<Longrightarrow> p = [] \<or> f (butlast p) \<noteq> None \<Longrightarrow> makedirs_at p True f = (Inr (), f)"
  by (subst makedirs_at.simps) (auto simp: mkdir_leaf_exists)

lemma mkdir_leaf_exists_error:
  "mkdir_leaf p e f = (Inl FileExistsError, f') \<Longrightarrow> f' p \<noteq> None"
  by (auto simp: mkdir_leaf_def mkdir_at_def split: prod.splits sum.splits if_splits option.splits node.splits)

lemma makedirs_at_exists_error:
  "makedirs_at p e f = (Inl FileExistsError, f') \<Longrightarrow> f' p \<noteq> None"
  by (subst (asm) makedirs_at.simps)
     (auto split: if_splits prod.splits sum.splits dest: mkdir_leaf_exists_error)

lemma makedirs_at_ok:
  "makedirs_at p True f = (Inr u, f') \<Longrightarrow> isdir f' p \<and> (p = [] \<or> f' (butlast p) \<noteq> None)"
proof (induction p "True" f arbitrary: u f' rule: makedirs_at.induct)
  case (1 p f)
  show ?case
  proof (cases "p \<noteq> [] \<and> f (butlast p) = None")
    case True
    obtain r1 f1 where rec: "makedirs_at (butlast p) True f = (r1, f1)"
      by (cases "makedirs_at (butlast p) True f")
    have leaf: "mkdir_leaf p True f1 = (Inr u, f')"
      using "1.prems" True rec by (subst (asm) makedirs_at.simps) (auto split: sum.splits if_splits)
    have "f1 (butlast p) \<noteq> None"
    proof (cases r1)
      case (Inl e)
      then have "e = FileExistsError"
        using "1.prems" True rec by (subst (asm) makedirs_at.simps) (auto split: sum.splits if_splits)
      with Inl rec show ?thesis by (auto dest: makedirs_at_exists_error)
    next
      case (Inr v)
      with "1.hyps" [OF True] rec have "isdir f1 (butlast p)" by auto
      then show ?thesis by (auto simp: isdir_def split: option.splits)
    qed
    moreover have "f' (butlast p) = f1 (butlast p) \<or> f1 (butlast p) = None"
      using mkdir_leaf_frame [OF leaf, of "butlast p"] by auto
    ultimately have "f' (butlast p) \<noteq> None" by auto
    with mkdir_leaf_ok [OF leaf] show ?thesis by simp
  next
    case False
    then have leaf: "mkdir_leaf p True f = (Inr u, f')"
      using "1.prems" by (subst (asm) makedirs_at.simps) auto
    have "f' (butlast p) = f (butlast p) \<or> f (butlast p) = None"
      using mkdir_leaf_frame [OF leaf, of "butlast p"] by auto
    with False mkdir_leaf_ok [OF leaf] show ?thesis by auto
  qed
qed





section \<open>The steps of the initializer\<close>

lemma execute_all_schema:
  "and_then (execute c goals_sql) (\<lambda>u.
   and_then (execute c tasks_sql) (\<lambda>u.
   and_then (execute c daily_logs_sql) (\<lambda>u.
   and_then (execute c calendar_events_sql) (\<lambda>u.
   and_then (execute c patterns_sql) k)))) = and_then (execute_all c schema) k"
  by (rule ext)
     (simp add: schema_def goals_sql_def tasks_sql_def daily_logs_sql_def calendar_events_sql_def
       patterns_sql_def and_then_def split: prod.splits sum.splits)

lemma execute_all_create_tables:
  "p \<in> set (open_conns w) \<Longrightarrow> fs w p = Some (RegularFile (SqliteFile db)) \<Longrightarrow>
   execute_all (Cursor (Connection p)) ds w =
     (case create_tables ds db of
        (Inl e, db1) \<Rightarrow> (Inl (SqliteError e), w\<lparr>fs := (fs w)(p \<mapsto> RegularFile (SqliteFile db1))\<rparr>)
      | (Inr u, db1) \<Rightarrow> (Inr (), w\<lparr>fs := (fs w)(p \<mapsto> RegularFile (SqliteFile db1))\<rparr>))"
proof (induction ds arbitrary: w db)
  case Nil
  then show ?case by (simp add: map_upd_triv)
next
  case (Cons d ds)
  show ?case
  proof (cases "create_table_if_not_exists d db")
    case (Inl e)
    with Cons.prems show ?thesis by (simp add: and_then_def map_upd_triv)
  next
    case (Inr db1)
    let ?w1 = "w\<lparr>fs := (fs w)(p \<mapsto> RegularFile (SqliteFile db1))\<rparr>"
    have "execute_all (Cursor (Connection p)) ds ?w1 =
      (case create_tables ds db1 of
        (Inl e, db2) \<Rightarrow> (Inl (SqliteError e), ?w1\<lparr>fs := (fs ?w1)(p \<mapsto> RegularFile (SqliteFile db2))\<rparr>)
      | (Inr u, db2) \<Rightarrow> (Inr (), ?w1\<lparr>fs := (fs ?w1)(p \<mapsto> RegularFile (SqliteFile db2))\<rparr>))"
      using Cons.prems by (intro Cons.IH) simp_all
    with Inr Cons.prems show ?thesis
      by (simp add: and_then_def split: prod.splits sum.splits)
  qed
qed

lemma initialize_database_unfold:
  "initialize_database path w =
     (case os_makedirs (dirname path) True w of
        (Inl e, w1) \<Rightarrow> (Inl e, w1)
      | (Inr u, w1) \<Rightarrow>
          (case connect path w1 of
             (Inl e, w2) \<Rightarrow> (Inl e, w2)
           | (Inr conn, w2) \<Rightarrow>
               (case execute_all (Cursor conn) schema w2 of
                  (Inl e, w3) \<Rightarrow> (Inl e, w3)
                | (Inr u, w3) \<Rightarrow>
                    (case commit conn w3 of
                       (Inl e, w4) \<Rightarrow> (Inl e, w4)
                     | (Inr u, w4) \<Rightarrow> close_conn conn w4))))"
  unfolding initialize_database_def execute_all_schema
  by (simp add: and_then_def new_cursor_def split: prod.splits sum.splits)

lemma connect_cases:
  assumes "connect path w = (r, w2)"
  shows "(r = Inl unable_to_open \<and> w2 = w) \<or>
         (r = Inr (Connection (resolve path)) \<and>
          ((\<exists>c. fs w (resolve path) = Some (RegularFile c)) \<and>
             w2 = w\<lparr>open_conns := resolve path # open_conns w\<rparr>
           \<or> fs w (resolve path) = None \<and> fs w (butlast (resolve path)) = Some (Dir True) \<and>
             w2 = w\<lparr>fs := (fs w)(resolve path \<mapsto> RegularFile (SqliteFile empty_database)),
                    open_conns := resolve path # open_conns w\<rparr>))"
  using assms
  by (auto simp: connect_def Let_def split: option.splits node.splits if_splits)

lemma run_connected:
  assumes "p \<in> set (open_conns w)" and "fs w p = Some (RegularFile c)"
  shows "(case execute_all (Cursor (Connection p)) schema w of
            (Inl e, w3) \<Rightarrow> (Inl e, w3)
          | (Inr u, w3) \<Rightarrow>
              (case commit (Connection p) w3 of
                 (Inl e, w4) \<Rightarrow> (Inl e, w4)
               | (Inr u, w4) \<Rightarrow> close_conn (Connection p) w4)) =
         (case c of
            OtherFile \<Rightarrow> (Inl (SqliteError (DatabaseError ''file is not a database'')), w)
          | SqliteFile db \<Rightarrow>
              (case create_tables schema db of
                 (Inl e, db1) \<Rightarrow>
                   (Inl (SqliteError e), w\<lparr>fs := (fs w)(p \<mapsto> RegularFile (SqliteFile db1))\<rparr>)
               | (Inr u, db1) \<Rightarrow>
                   (Inr (), w\<lparr>fs := (fs w)(p \<mapsto> RegularFile (SqliteFile db1)),
                              open_conns := remove1 p (open_conns w)\<rparr>)))"
proof (cases c)
  case OtherFile
  have "execute (Cursor (Connection p)) (CreateTableIfNotExists d) w
      = (Inl (SqliteError (DatabaseError ''file is not a database'')), w)" for d
    using assms OtherFile by simp
  then have "execute_all (Cursor (Connection p)) (d # ds) w
      = (Inl (SqliteError (DatabaseError ''file is not a database'')), w)" for d ds
    by (simp add: and_then_def)
  then have "execute_all (Cursor (Connection p)) schema w
      = (Inl (SqliteError (DatabaseError ''file is not a database'')), w)"
    by (simp add: schema_def)
  then show ?thesis using OtherFile by simp
next
  case (SqliteFile db)
  with assms show ?thesis
    by (auto simp: execute_all_create_tables split: prod.splits sum.splits)
qed

lemma initialize_database_makedirs_fails:
  assumes "makedirs (dirname path) True (fs w) = (Inl e, f1)"
  shows "initialize_database path w = (Inl (OSError e), w\<lparr>fs := f1\<rparr>)"
  using assms by (simp add: initialize_database_unfold os_makedirs_def)

lemma initialize_database_connect_fails:
  assumes "makedirs (dirname path) True (fs w) = (Inr u, f1)"
    and "fst (connect path (w\<lparr>fs := f1\<rparr>)) = Inl e"
  shows "initialize_database path w = (Inl unable_to_open, w\<lparr>fs := f1\<rparr>)"
proof -
  obtain r w2 where c: "connect path (w\<lparr>fs := f1\<rparr>) = (r, w2)"
    by (cases "connect path (w\<lparr>fs := f1\<rparr>)")
  with assms(2) connect_cases [OF c] have "r = Inl unable_to_open" "w2 = w\<lparr>fs := f1\<rparr>"
    by auto
  with assms(1) c show ?thesis
    by (simp add: initialize_database_unfold os_makedirs_def)
qed

lemma create_tables_error:
  "create_tables ds db = (Inl e, db1) \<Longrightarrow>
     \<exists>d\<in>set ds. e = OperationalError (''there is already an index named '' @ tbl_name d)"
proof (induction ds arbitrary: db)
  case Nil
  then show ?case by simp
next
  case (Cons d ds)
  then show ?case
    by (cases "create_table_if_not_exists d db")
       (auto simp: create_table_if_not_exists_def split: option.splits db_object.splits)
qed

lemma initialize_database_cases [case_names mkdir_failed connect_failed not_a_database create_failed succeeded]:
  obtains
    e f1 where "makedirs (dirname path) True (fs w) = (Inl e, f1)"
      and "initialize_database path w = (Inl (OSError e), w\<lparr>fs := f1\<rparr>)"
  | f1 where "makedirs (dirname path) True (fs w) = (Inr (), f1)"
      and "fst (connect path (w\<lparr>fs := f1\<rparr>)) = Inl unable_to_open"
      and "initialize_database path w = (Inl unable_to_open, w\<lparr>fs := f1\<rparr>)"
  | f1 where "makedirs (dirname path) True (fs w) = (Inr (), f1)"
      and "f1 (resolve path) = Some (RegularFile OtherFile)"
      and "initialize_database path w =
             (Inl (SqliteError (DatabaseError ''file is not a database'')),
              w\<lparr>fs := f1, open_conns := resolve path # open_conns w\<rparr>)"
  | f1 db e db1 where "makedirs (dirname path) True (fs w) = (Inr (), f1)"
      and "f1 (resolve path) = Some (RegularFile (SqliteFile db))
           \<or> f1 (resolve path) = None \<and> f1 (butlast (resolve path)) = Some (Dir True)
               \<and> db = empty_database"
      and "create_tables schema db = (Inl e, db1)"
      and "initialize_database path w =
             (Inl (SqliteError e),
              w\<lparr>fs := f1(resolve path \<mapsto> RegularFile (SqliteFile db1)),
                open_conns := resolve path # open_conns w\<rparr>)"
  | f1 db db1 where "makedirs (dirname path) True (fs w) = (Inr (), f1)"
      and "f1 (resolve path) = Some (RegularFile (SqliteFile db))
           \<or> f1 (resolve path) = None \<and> f1 (butlast (resolve path)) = Some (Dir True)
               \<and> db = empty_database"
      and "create_tables schema db = (Inr (), db1)"
      and "initialize_database path w =
             (Inr (), w\<lparr>fs := f1(resolve path \<mapsto> RegularFile (SqliteFile db1))\<rparr>)"
proof -
  let ?p = "resolve path"
  obtain r0 f1 where mk: "makedirs (dirname path) True (fs w) = (r0, f1)"
    by (cases "makedirs (dirname path) True (fs w)")
  show ?thesis
  proof (cases r0)
    case (Inl e)
    with mk that(1) show ?thesis by (simp add: initialize_database_makedirs_fails)
  next
    case (Inr u)
    with mk have mk': "makedirs (dirname path) True (fs w) = (Inr (), f1)" by simp
    obtain r w2 where c: "connect path (w\<lparr>fs := f1\<rparr>) = (r, w2)"
      by (cases "connect path (w\<lparr>fs := f1\<rparr>)")
    from connect_cases [OF c]
    consider "r = Inl unable_to_open"
      | cont where "r = Inr (Connection ?p)" "f1 ?p = Some (RegularFile cont)"
          "w2 = w\<lparr>fs := f1, open_conns := ?p # open_conns w\<rparr>"
      | "r = Inr (Connection ?p)" "f1 ?p = None" "f1 (butlast ?p) = Some (Dir True)"
          "w2 = w\<lparr>fs := f1(?p \<mapsto> RegularFile (SqliteFile empty_database)),
                 open_conns := ?p # open_conns w\<rparr>"
      by auto
    then show ?thesis
    proof cases
      case 1
      with c have "fst (connect path (w\<lparr>fs := f1\<rparr>)) = Inl unable_to_open" by simp
      with mk' that(2) show ?thesis
        by (simp add: initialize_database_connect_fails)
    next
      case 2
      have run: "initialize_database path w =
        (case execute_all (Cursor (Connection ?p)) schema w2 of
            (Inl e, w3) \<Rightarrow> (Inl e, w3)
          | (Inr u, w3) \<Rightarrow>
              (case commit (Connection ?p) w3 of
                 (Inl e, w4) \<Rightarrow> (Inl e, w4)
               | (Inr u, w4) \<Rightarrow> close_conn (Connection ?p) w4))"
        using mk' c 2(1) by (simp add: initialize_database_unfold os_makedirs_def)
      have rc: "?p \<in> set (open_conns w2)" "fs w2 ?p = Some (RegularFile cont)"
        using 2 by simp_all
      show ?thesis
      proof (cases cont)
        case OtherFile
        with run run_connected [OF rc] 2 mk' that(3) show ?thesis by simp
      next
        case (SqliteFile db)
        obtain r3 db1 where ct: "create_tables schema db = (r3, db1)"
          by (cases "create_tables schema db")
        show ?thesis
        proof (cases r3)
          case (Inl e)
          with run run_connected [OF rc] 2 SqliteFile ct mk' that(4) [of f1 db e db1]
          show ?thesis by simp
        next
          case (Inr v)
          with run run_connected [OF rc] 2 SqliteFile ct mk' that(5) [of f1 db db1]
          show ?thesis by simp
        qed
      qed
    next
      case 3
      have run: "initialize_database path w =
        (case execute_all (Cursor (Connection ?p)) schema w2 of
            (Inl e, w3) \<Rightarrow> (Inl e, w3)
          | (Inr u, w3) \<Rightarrow>
              (case commit (Connection ?p) w3 of
                 (Inl e, w4) \<Rightarrow> (Inl e, w4)
               | (Inr u, w4) \<Rightarrow> close_conn (Connection ?p) w4))"
        using mk' c 3(1) by (simp add: initialize_database_unfold os_makedirs_def)
      have rc: "?p \<in> set (open_conns w2)"
        "fs w2 ?p = Some (RegularFile (SqliteFile empty_database))"
        using 3 by simp_all
      obtain r3 db1 where ct: "create_tables schema empty_database = (r3, db1)"
        by (cases "create_tables schema empty_database")
      show ?thesis
      proof (cases r3)
        case (Inl e)
        with run run_connected [OF rc] 3 ct mk' that(4) [of f1 empty_database e db1]
        show ?thesis by simp
      next
        case (Inr v)
        with run run_connected [OF rc] 3 ct mk' that(5) [of f1 empty_database db1]
        show ?thesis by simp
      qed
    qed
  qed
qed


lemma create_table_if_not_exists_cases:
  "(\<exists>i. map_of db (tbl_name d) = Some (Index i)
        \<and> create_table_if_not_exists d db
          = Inl (OperationalError (''there is already an index named '' @ tbl_name d)))
   \<or> (\<exists>ob. map_of db (tbl_name d) = Some ob \<and> (\<forall>i. ob \<noteq> Index i)
        \<and> create_table_if_not_exists d db = Inr db)
   \<or> (map_of db (tbl_name d) = None
        \<and> create_table_if_not_exists d db = Inr (db @ [new_table d]))"
  by (auto simp: create_table_if_not_exists_def new_table_def split: option.splits db_object.splits)



lemma create_tables_noop:
  "(\<And>d. d \<in> set ds \<Longrightarrow> \<exists>ob. map_of db (tbl_name d) = Some ob \<and> (\<forall>i. ob \<noteq> Index i))
     \<Longrightarrow> create_tables ds db = (Inr (), db)"
proof (induction ds)
  case Nil
  then show ?case by simp
next
  case (Cons d ds)
  from Cons.prems [of d] create_table_if_not_exists_cases [of db d]
  have "create_table_if_not_exists d db = Inr db" by auto
  with Cons show ?case by simp
qed


lemma create_tables_fresh:
  "create_tables schema empty_database = (Inr (), fresh_database)"
  by (simp add: schema_def fresh_database_def empty_database_def new_table_def
      create_table_if_not_exists_def goals_sql_def tasks_sql_def daily_logs_sql_def
      calendar_events_sql_def patterns_sql_def)

lemma makedirs_frame:
  "makedirs name ok f = (r, f1) \<Longrightarrow> f1 q = f q \<or> (f q = None \<and> f1 q = Some (Dir True))"
  using makedirs_at_frame [of "resolve name" ok f r f1 q]
  by (auto simp: makedirs_def split: if_splits)

lemma connect_existing:
  "fs w (resolve path) = Some (RegularFile c) \<Longrightarrow>
     connect path w = (Inr (Connection (resolve path)), w\<lparr>open_conns := resolve path # open_conns w\<rparr>)"
  by (simp add: connect_def Let_def)

section \<open>Rows do not change the schema\<close>

lemma insert_row_objects:
  assumes "insert_row k now n given db = Inr (rid, db1)"
  shows "\<exists>t t1. map_of db n = Some (Table t) \<and> insert_into now given t = Inr (rid, t1)
           \<and> db1 = AList.update n (Table t1) db"
  using assms
  by (auto simp: insert_row_def split: option.splits db_object.splits sum.splits if_splits)

lemma delete_row_objects:
  assumes "delete_row k n rid db = Inr db1"
  shows "\<exists>t. map_of db n = Some (Table t)
           \<and> db1 = AList.update n (Table (t\<lparr>tbl_rows := filter (\<lambda>r. rowid r \<noteq> rid) (tbl_rows t)\<rparr>)) db"
  using assms
  by (auto simp: delete_row_def split: option.splits db_object.splits if_splits)

lemma apply_op_objects:
  "snd (apply_op x db) = db
   \<or> (\<exists>n t t1. map_of db n = Some (Table t) \<and> snd (apply_op x db) = AList.update n (Table t1) db)"
proof (cases x)
  case (InsertRow k now n given)
  show ?thesis
  proof (cases "insert_row k now n given db")
    case (Inl e)
    with InsertRow show ?thesis by simp
  next
    case (Inr res)
    obtain rid db1 where "res = (rid, db1)" by (cases res)
    with Inr InsertRow insert_row_objects [of k now n given db rid db1] show ?thesis by auto
  qed
next
  case (DeleteRow k n rid)
  show ?thesis
  proof (cases "delete_row k n rid db")
    case (Inl e)
    with DeleteRow show ?thesis by simp
  next
    case (Inr db1)
    with DeleteRow delete_row_objects [of k n rid db db1] show ?thesis by auto
  qed
qed

lemma apply_op_keeps_kind:
  assumes "map_of db n = Some ob" and "\<forall>i. ob \<noteq> Index i"
  shows "\<exists>ob1. map_of (snd (apply_op x db)) n = Some ob1 \<and> (\<forall>i. ob1 \<noteq> Index i)"
  using apply_op_objects [of x db] assms by (auto simp: update_conv')

lemma snd_apply_ops_Cons:
  "snd (apply_ops (x # xs) db) = snd (apply_ops xs (snd (apply_op x db)))"
  by (simp split: prod.splits)

lemma apply_ops_keeps_kind:
  assumes "map_of db n = Some ob" and "\<forall>i. ob \<noteq> Index i"
  shows "\<exists>ob1. map_of (snd (apply_ops xs db)) n = Some ob1 \<and> (\<forall>i. ob1 \<noteq> Index i)"
  using assms
proof (induction xs arbitrary: db ob)
  case Nil
  then show ?case by simp
next
  case (Cons x xs)
  from apply_op_keeps_kind [OF Cons.prems, of x]
  obtain ob1 where "map_of (snd (apply_op x db)) n = Some ob1" "\<forall>i. ob1 \<noteq> Index i"
    by blast
  from Cons.IH [OF this] show ?case
    unfolding snd_apply_ops_Cons .
qed

lemma fresh_database_names:
  "map fst fresh_database = [''goals'', ''tasks'', ''daily_logs'', ''calendar_events'', ''patterns'']"
  by (simp add: fresh_database_def schema_def new_table_def goals_sql_def tasks_sql_def
      daily_logs_sql_def calendar_events_sql_def patterns_sql_def)

lemma schema_names:
  "map tbl_name schema = [''goals'', ''tasks'', ''daily_logs'', ''calendar_events'', ''patterns'']"
  by (simp add: schema_def goals_sql_def tasks_sql_def
      daily_logs_sql_def calendar_events_sql_def patterns_sql_def)

lemma map_of_new_tables:
  "distinct (map tbl_name ds) \<Longrightarrow> d \<in> set ds
     \<Longrightarrow> map_of (map new_table ds) (tbl_name d) = Some (snd (new_table d))"
  by (induction ds) (auto simp: new_table_def image_iff)

lemma fresh_database_tables:
  "d \<in> set schema \<Longrightarrow> map_of fresh_database (tbl_name d) = Some (snd (new_table d))"
  unfolding fresh_database_def
  by (rule map_of_new_tables) (simp_all add: schema_names)

lemma initialize_database_on_empty_location:
  assumes "fs w (resolve path) = None \<or> fs w (resolve path) = Some (RegularFile (SqliteFile empty_database))"
    and "fst (initialize_database path w) = Inr ()"
  shows "\<exists>f1. makedirs_at (resolve (dirname path)) True (fs w) = (Inr (), f1)
           \<and> dirname path \<noteq> []
           \<and> (f1 (resolve path) = None \<or> f1 (resolve path) = Some (RegularFile (SqliteFile empty_database)))
           \<and> initialize_database path w
               = (Inr (), w\<lparr>fs := f1(resolve path \<mapsto> RegularFile (SqliteFile fresh_database))\<rparr>)"
proof (cases path w rule: initialize_database_cases)
  case (succeeded f1 db db1)
  from makedirs_frame [OF succeeded(1), of "resolve path"] assms(1)
  have "f1 (resolve path) = None \<or> f1 (resolve path) = Some (Dir True)
      \<or> f1 (resolve path) = Some (RegularFile (SqliteFile empty_database))"
    by auto
  with succeeded(2) have db: "db = empty_database"
    and f1: "f1 (resolve path) = None \<or> f1 (resolve path) = Some (RegularFile (SqliteFile empty_database))"
    by auto
  with succeeded(3) create_tables_fresh have "db1 = fresh_database" by simp
  moreover from succeeded(1) have "dirname path \<noteq> []"
    by (auto simp: makedirs_def split: if_splits)
  ultimately show ?thesis
    using succeeded(1,4) f1 by (simp add: makedirs_def)
qed (use assms(2) in simp_all)

lemma initialize_database_again:
  assumes dir: "dirname path \<noteq> []" "isdir (fs w) (resolve (dirname path))"
      "resolve (dirname path) = [] \<or> fs w (butlast (resolve (dirname path))) \<noteq> None"
    and db: "fs w (resolve path) = Some (RegularFile (SqliteFile db))"
    and tables: "\<And>d. d \<in> set schema \<Longrightarrow> \<exists>ob. map_of db (tbl_name d) = Some ob \<and> (\<forall>i. ob \<noteq> Index i)"
  shows "initialize_database path w = (Inr (), w)"
proof -
  have mk: "makedirs (dirname path) True (fs w) = (Inr (), fs w)"
    using dir by (simp add: makedirs_def makedirs_at_exists)
  have ct: "create_tables schema db = (Inr (), db)"
    using tables by (rule create_tables_noop)
  show ?thesis
  proof (cases path w rule: initialize_database_cases)
    case (mkdir_failed e f1)
    with mk show ?thesis by simp
  next
    case (connect_failed f1)
    with mk db show ?thesis by (simp add: connect_existing)
  next
    case (not_a_database f1)
    with mk db show ?thesis by simp
  next
    case (create_failed f1 db' e db1)
    with mk db ct show ?thesis by auto
  next
    case (succeeded f1 db' db1)
    with mk db ct have "f1 = fs w" "db1 = db" by auto
    with succeeded(4) db show ?thesis by (simp add: map_upd_triv)
  qed
qed

section \<open>Inserted rows\<close>

lemma insert_into_row:
  assumes "insert_into now given t = Inr (rid, t1)"
  shows "t1 = t\<lparr>tbl_rows := tbl_rows t @
            [\<lparr>rowid = rid,
              cells = map (\<lambda>c. (col_name c, given_value now given c))
                (filter (\<lambda>c. Some (col_name c) \<noteq> pk_name (tbl_decl t)) (tbl_columns (tbl_decl t)))\<rparr>],
          tbl_seq := (if pk_name (tbl_decl t) = None then tbl_seq t else max (tbl_seq t) rid)\<rparr>"
    and "choose_rowid t (case pk_name (tbl_decl t) of None \<Rightarrow> None | Some k \<Rightarrow> map_of given k) = Inr rid"
  using assms
  by (auto simp: insert_into_def Let_def split: if_splits sum.splits)



lemma schema_eq:
  "schema =
    [TableDef ''goals''
       [Column ''id'' INTEGER [PrimaryKeyAutoincrement],
        Column ''title'' TEXT [NotNull],
        Column ''description'' TEXT [],
        Column ''type'' TEXT [],
        Column ''deadline'' DATE [],
        Column ''priority'' TEXT [],
        Column ''status'' TEXT [Default (Literal ''active'')],
        Column ''created_at'' TIMESTAMP [Default CURRENT_TIMESTAMP]] [],
     TableDef ''tasks''
       [Column ''id'' INTEGER [PrimaryKeyAutoincrement],
        Column ''goal_id'' INTEGER [],
        Column ''title'' TEXT [NotNull],
        Column ''description'' TEXT [],
        Column ''status'' TEXT [Default (Literal ''pending'')],
        Column ''deadline'' DATE [],
        Column ''estimated_hours'' REAL [],
        Column ''created_at'' TIMESTAMP [Default CURRENT_TIMESTAMP]]
       [ForeignKey ''goal_id'' ''goals'' ''id''],
     TableDef ''daily_logs''
       [Column ''id'' INTEGER [PrimaryKeyAutoincrement],
        Column ''date'' DATE [NotNull],
        Column ''notes'' TEXT [],
        Column ''created_at'' TIMESTAMP [Default CURRENT_TIMESTAMP]] [],
     TableDef ''calendar_events''
       [Column ''id'' INTEGER [PrimaryKeyAutoincrement],
        Column ''external_id'' TEXT [],
        Column ''title'' TEXT [],
        Column ''start_time'' DATETIME [],
        Column ''end_time'' DATETIME [],
        Column ''source'' TEXT [],
        Column ''created_at'' TIMESTAMP [Default CURRENT_TIMESTAMP]] [],
     TableDef ''patterns''
       [Column ''id'' INTEGER [PrimaryKeyAutoincrement],
        Column ''pattern_type'' TEXT [],
        Column ''data'' TEXT [],
        Column ''created_at'' TIMESTAMP [Default CURRENT_TIMESTAMP]] []]"
  by (simp add: schema_def goals_sql_def tasks_sql_def daily_logs_sql_def
      calendar_events_sql_def patterns_sql_def)

lemma schema_columns:
  assumes "d \<in> set schema"
  shows "pk_name d = Some ''id''"
    and "distinct (map col_name (tbl_columns d))"
    and "Column ''created_at'' TIMESTAMP [Default CURRENT_TIMESTAMP] \<in> set (tbl_columns d)"
    and "hd (tbl_columns d) = Column ''id'' INTEGER [PrimaryKeyAutoincrement]"
    and "filter is_pk (tbl_columns d) = [Column ''id'' INTEGER [PrimaryKeyAutoincrement]]"
  using assms unfolding schema_eq
  by (auto simp: pk_name_def is_pk_def)















section \<open>Foreign keys\<close>




section \<open>Rowids\<close>

lemma list_all_update:
  "list_all P al \<Longrightarrow> P (k, v) \<Longrightarrow> list_all P (AList.update k v al)"
  by (induction al) auto

lemma all_autoincrement_table:
  "all_autoincrement db \<Longrightarrow> map_of db n = Some (Table t) \<Longrightarrow> pk_name (tbl_decl t) \<noteq> None"
  by (auto simp: all_autoincrement_def list_all_iff dest!: map_of_SomeD)

lemma new_rowid_larger:
  "new_rowid t = Inr rid \<Longrightarrow> pk_name (tbl_decl t) \<noteq> None \<Longrightarrow> tbl_seq t < rid"
  by (auto simp: new_rowid_def Let_def split: if_splits)

lemma insert_row_step:
  assumes "all_autoincrement db" and "insert_row k now n given db = Inr (rid, db1)"
  shows "all_autoincrement db1"
    and "recorded_largest db1 n = max (recorded_largest db n) rid"
    and "m \<noteq> n \<Longrightarrow> recorded_largest db1 m = recorded_largest db m"
    and "picks_rowid db n given \<Longrightarrow> recorded_largest db n < rid"
proof -
  from insert_row_objects [OF assms(2)]
  obtain t t1 where t: "map_of db n = Some (Table t)"
    and ins: "insert_into now given t = Inr (rid, t1)"
    and db1: "db1 = AList.update n (Table t1) db"
    by blast
  from all_autoincrement_table [OF assms(1) t] obtain key where key: "pk_name (tbl_decl t) = Some key"
    by auto
  note t1 = insert_into_row [OF ins]
  show "all_autoincrement db1"
    using assms(1) key t1(1) unfolding db1 all_autoincrement_def
    by (intro list_all_update) simp_all
  show "recorded_largest db1 n = max (recorded_largest db n) rid"
    using t key t1(1) by (simp add: recorded_largest_def db1 update_conv')
  show "recorded_largest db1 m = recorded_largest db m" if "m \<noteq> n"
    using that by (simp add: recorded_largest_def db1 update_conv')
  show "recorded_largest db n < rid" if "picks_rowid db n given"
  proof -
    from that t key have "map_of given key = None \<or> map_of given key = Some SqlNull"
      by (simp add: picks_rowid_def)
    with t1(2) key have "new_rowid t = Inr rid"
      by (auto simp: choose_rowid_def)
    from new_rowid_larger [OF this] key t show ?thesis
      by (simp add: recorded_largest_def)
  qed
qed

lemma delete_row_step:
  assumes "all_autoincrement db" and "delete_row k n rid db = Inr db1"
  shows "all_autoincrement db1" and "recorded_largest db1 m = recorded_largest db m"
proof -
  from delete_row_objects [OF assms(2)]
  obtain t where t: "map_of db n = Some (Table t)"
    and db1: "db1 = AList.update n (Table (t\<lparr>tbl_rows := filter (\<lambda>r. rowid r \<noteq> rid) (tbl_rows t)\<rparr>)) db"
    by blast
  show "all_autoincrement db1"
    using assms(1) all_autoincrement_table [OF assms(1) t] unfolding db1 all_autoincrement_def
    by (intro list_all_update) simp_all
  show "recorded_largest db1 m = recorded_largest db m"
    using t by (simp add: recorded_largest_def db1 update_conv')
qed

lemma apply_op_step:
  assumes "all_autoincrement db" and "apply_op x db = (es, db1)"
  shows "all_autoincrement db1"
    and "recorded_largest db m \<le> recorded_largest db1 m"
    and "e \<in> set es \<Longrightarrow> ev_rowid e \<le> recorded_largest db1 (ev_table e)"
    and "e \<in> set es \<Longrightarrow> ev_auto e \<Longrightarrow> recorded_largest db (ev_table e) < ev_rowid e"
proof -
  have "all_autoincrement db1 \<and> recorded_largest db m \<le> recorded_largest db1 m
    \<and> (e \<in> set es \<longrightarrow> ev_rowid e \<le> recorded_largest db1 (ev_table e))
    \<and> (e \<in> set es \<longrightarrow> ev_auto e \<longrightarrow> recorded_largest db (ev_table e) < ev_rowid e)"
  proof (cases x)
    case (InsertRow k now n given)
    show ?thesis
    proof (cases "insert_row k now n given db")
      case (Inl err)
      with InsertRow assms show ?thesis by auto
    next
      case (Inr res)
      obtain rid db2 where res: "res = (rid, db2)" by (cases res)
      with Inr InsertRow assms(2)
      have es: "es = [Inserted n rid (picks_rowid db n given)]" and db2: "db2 = db1"
        by auto
      note step = insert_row_step [OF assms(1) Inr [unfolded res db2]]
      have "recorded_largest db m \<le> recorded_largest db1 m"
        using step(2) step(3) [of m] by (cases "m = n") auto
      with step show ?thesis
        by (auto simp: es)
    qed
  next
    case (DeleteRow k n rid)
    show ?thesis
    proof (cases "delete_row k n rid db")
      case (Inl err)
      with DeleteRow assms show ?thesis by auto
    next
      case (Inr db2)
      with DeleteRow assms(2) have "es = []" "db2 = db1" by auto
      with delete_row_step [OF assms(1) Inr] show ?thesis by auto
    qed
  qed
  then show "all_autoincrement db1"
    and "recorded_largest db m \<le> recorded_largest db1 m"
    and "e \<in> set es \<Longrightarrow> ev_rowid e \<le> recorded_largest db1 (ev_table e)"
    and "e \<in> set es \<Longrightarrow> ev_auto e \<Longrightarrow> recorded_largest db (ev_table e) < ev_rowid e"
    by blast+
qed

lemma apply_ops_Cons:
  "apply_ops (x # xs) db =
     (fst (apply_op x db) @ fst (apply_ops xs (snd (apply_op x db))),
      snd (apply_ops xs (snd (apply_op x db))))"
  by (simp split: prod.splits)

lemma apply_ops_bounds:
  assumes "all_autoincrement db"
  shows "all_autoincrement (snd (apply_ops xs db))
    \<and> (\<forall>m. recorded_largest db m \<le> recorded_largest (snd (apply_ops xs db)) m)
    \<and> (\<forall>e\<in>set (fst (apply_ops xs db)). ev_auto e \<longrightarrow> recorded_largest db (ev_table e) < ev_rowid e)"
  using assms
proof (induction xs arbitrary: db)
  case Nil
  then show ?case by simp
next
  case (Cons x xs)
  obtain es db1 where op: "apply_op x db = (es, db1)"
    by (cases "apply_op x db")
  note step = apply_op_step [OF Cons.prems op]
  note rest = Cons.IH [OF step(1)]
  have "recorded_largest db m \<le> recorded_largest (snd (apply_ops xs db1)) m" for m
    using step(2) [of m] rest by (meson order_trans)
  moreover have "recorded_largest db (ev_table e) < ev_rowid e"
    if "e \<in> set (fst (apply_ops xs db1))" "ev_auto e" for e
    using step(2) [of "ev_table e"] rest that by fastforce
  ultimately show ?case
    using step(4) rest unfolding apply_ops_Cons op by auto
qed

lemma apply_ops_sorted:
  assumes "all_autoincrement db"
  shows "sorted_wrt later_is_larger (fst (apply_ops xs db))"
  using assms
proof (induction xs arbitrary: db)
  case Nil
  then show ?case by simp
next
  case (Cons x xs)
  obtain es db1 where op: "apply_op x db = (es, db1)"
    by (cases "apply_op x db")
  note step = apply_op_step [OF Cons.prems op]
  have one: "sorted_wrt later_is_larger es"
    using op by (cases x) (auto split: sum.splits)
  have "later_is_larger e e1" if "e \<in> set es" "e1 \<in> set (fst (apply_ops xs db1))" for e e1
    using step(3) [OF that(1)] apply_ops_bounds [OF step(1), of xs] that(2)
    by (fastforce simp: later_is_larger_def)
  with one Cons.IH [OF step(1)] show ?case
    unfolding apply_ops_Cons op by (simp add: sorted_wrt_append)
qed

lemma fresh_database_autoincrement:
  "all_autoincrement fresh_database"
  by (simp add: all_autoincrement_def fresh_database_def new_table_def schema_eq pk_name_def is_pk_def)

section \<open>Paths\<close>






section \<open>Running the initializer again\<close>

text \<open>
  Claim C1.  On a location where nothing is yet, a call that returns leaves the five tables,
  all empty.  Whatever rows other components then insert or delete in that file, a second
  call returns normally and leaves the whole world as it found it: the same tables, the
  same rows.  Without anything in between this is the second of two calls in succession.
\<close>

theorem initialization_idempotent:
  assumes "fs w (resolve path) = None" and "fst (initialize_database path w) = Inr ()"
  shows "database_at (snd (initialize_database path w)) path = Some fresh_database
     \<and> map fst fresh_database = [''goals'', ''tasks'', ''daily_logs'', ''calendar_events'', ''patterns'']
     \<and> (\<forall>xs. initialize_database path
                (apply_ops_at (resolve path) xs (snd (initialize_database path w)))
            = (Inr (), apply_ops_at (resolve path) xs (snd (initialize_database path w))))"
proof -
  let ?p = "resolve path" and ?d = "resolve (dirname path)"
  from initialize_database_on_empty_location [of w path] assms
  obtain f1 where mk: "makedirs_at ?d True (fs w) = (Inr (), f1)"
    and ne: "dirname path \<noteq> []"
    and f1: "f1 ?p = None \<or> f1 ?p = Some (RegularFile (SqliteFile empty_database))"
    and run: "initialize_database path w
               = (Inr (), w\<lparr>fs := f1(?p \<mapsto> RegularFile (SqliteFile fresh_database))\<rparr>)"
    by auto
  from makedirs_at_ok [OF mk] have d: "isdir f1 ?d" "?d = [] \<or> f1 (butlast ?d) \<noteq> None"
    by simp_all
  from d(1) f1 have neq: "?d \<noteq> ?p"
    by (auto simp: isdir_def)
  have again: "initialize_database path (apply_ops_at ?p xs (snd (initialize_database path w)))
            = (Inr (), apply_ops_at ?p xs (snd (initialize_database path w)))" for xs
  proof (rule initialize_database_again [OF ne])
    let ?w = "apply_ops_at ?p xs (snd (initialize_database path w))"
    have fs: "fs ?w = f1(?p \<mapsto> RegularFile (SqliteFile (snd (apply_ops xs fresh_database))))"
      using run by (simp add: apply_ops_at_def)
    show "isdir (fs ?w) ?d"
      using d(1) neq by (simp add: fs isdir_def)
    show "?d = [] \<or> fs ?w (butlast ?d) \<noteq> None"
      using d(2) by (auto simp: fs)
    show "fs ?w ?p = Some (RegularFile (SqliteFile (snd (apply_ops xs fresh_database))))"
      by (simp add: fs)
    show "\<exists>ob. map_of (snd (apply_ops xs fresh_database)) (tbl_name t) = Some ob \<and> (\<forall>i. ob \<noteq> Index i)"
      if "t \<in> set schema" for t
      by (rule apply_ops_keeps_kind [OF fresh_database_tables [OF that]])
         (simp add: new_table_def)
  qed
  from run have "database_at (snd (initialize_database path w)) path = Some fresh_database"
    by (simp add: database_at_def)
  with again fresh_database_names show ?thesis by blast
qed

theorem initialization_idempotent_witness:
  "fs empty_cwd (resolve ''data/nexus.db'') = None
   \<and> fst (initialize_database ''data/nexus.db'' empty_cwd) = Inr ()
   \<and> fst (initialize_database ''data/nexus.db''
        (apply_ops_at (resolve ''data/nexus.db'')
           [InsertRow False 7 ''goals'' [(''title'', SqlText ''run'')]]
           (snd (initialize_database ''data/nexus.db'' empty_cwd)))) = Inr ()
   \<and> database_at (snd (initialize_database ''data/nexus.db''
        (apply_ops_at (resolve ''data/nexus.db'')
           [InsertRow False 7 ''goals'' [(''title'', SqlText ''run'')]]
           (snd (initialize_database ''data/nexus.db'' empty_cwd))))) ''data/nexus.db''
      = database_at (apply_ops_at (resolve ''data/nexus.db'')
           [InsertRow False 7 ''goals'' [(''title'', SqlText ''run'')]]
           (snd (initialize_database ''data/nexus.db'' empty_cwd))) ''data/nexus.db''"
proof -
  have a: "fs empty_cwd (resolve ''data/nexus.db'') = None"
    by code_simp
  have b: "fst (initialize_database ''data/nexus.db'' empty_cwd) = Inr ()"
    by code_simp
  from initialization_idempotent [OF a b] a b show ?thesis
    by simp
qed

section \<open>The schema after initialization\<close>




section \<open>Release of the connection\<close>

text \<open>
  Claim C3, as the code has it.  The connection is released when the initializer returns
  normally.  It has no open connection either when the directory step or the opening itself
  fails.  When one of the table-creation statements raises, the exception leaves the
  initializer with the connection still open: \<^verbatim>\<open>conn.close()\<close> is the last statement
  and nothing guards it.
\<close>

theorem connection_released_on_return:
  "open_conns (snd (initialize_database path w)) =
     (case fst (initialize_database path w) of
        Inr u \<Rightarrow> open_conns w
      | Inl (OSError e) \<Rightarrow> open_conns w
      | Inl (SqliteError e) \<Rightarrow>
          if e = OperationalError ''unable to open database file'' then open_conns w
          else resolve path # open_conns w)"
proof (cases path w rule: initialize_database_cases)
  case (create_failed f1 db e db1)
  from create_tables_error [OF create_failed(3)]
  obtain d where "e = OperationalError (''there is already an index named '' @ tbl_name d)"
    by blast
  with create_failed(4) show ?thesis by simp
qed (simp_all add: unable_to_open_def)

theorem connection_released_on_return_witness:
  "fst (initialize_database ''data/nexus.db'' empty_cwd) = Inr ()
   \<and> open_conns (snd (initialize_database ''data/nexus.db'' empty_cwd)) = open_conns empty_cwd"
proof -
  have "fst (initialize_database ''data/nexus.db'' empty_cwd) = Inr ()"
    by code_simp
  then show ?thesis
    using connection_released_on_return [of "''data/nexus.db''" empty_cwd] by simp
qed

text \<open>
  Claim C3 as stated fails: the file at the path is not a database, the first statement
  raises, and the connection opened before it is still open afterwards.
\<close>

theorem connection_left_open_counterexample:
  "fst (initialize_database ''data/nexus.db'' other_file)
     = Inl (SqliteError (DatabaseError ''file is not a database''))
   \<and> open_conns other_file = []
   \<and> open_conns (snd (initialize_database ''data/nexus.db'' other_file))
     = [[''data'', ''nexus.db'']]"
  by code_simp

section \<open>Objects that are already there\<close>




section \<open>Mandatory columns\<close>




section \<open>Making the directories\<close>




section \<open>The entry point\<close>



section \<open>Failure of the directory step\<close>

text \<open>
  Claim C8.  When the directory part of the path cannot be made, the initializer raises that
  \<^verbatim>\<open>OSError\<close>, opens no connection, and every regular file there is afterwards was there
  before: no storage file has been created.
\<close>

theorem directory_failure_is_io_error:
  assumes "fst (makedirs (dirname path) True (fs w)) = Inl e"
  shows "fst (initialize_database path w) = Inl (OSError e)
     \<and> open_conns (snd (initialize_database path w)) = open_conns w
     \<and> (\<forall>q c. fs (snd (initialize_database path w)) q = Some (RegularFile c)
            \<longrightarrow> fs w q = Some (RegularFile c))"
proof -
  obtain f1 where mk: "makedirs (dirname path) True (fs w) = (Inl e, f1)"
    using assms by (cases "makedirs (dirname path) True (fs w)") auto
  then have run: "initialize_database path w = (Inl (OSError e), w\<lparr>fs := f1\<rparr>)"
    by (rule initialize_database_makedirs_fails)
  have "fs w q = Some (RegularFile c)" if "f1 q = Some (RegularFile c)" for q c
  proof (cases "dirname path = []")
    case True
    with mk that show ?thesis by (simp add: makedirs_def)
  next
    case False
    with mk have "makedirs_at (resolve (dirname path)) True (fs w) = (Inl e, f1)"
      by (simp add: makedirs_def)
    from makedirs_at_frame [OF this, of q] that show ?thesis by auto
  qed
  with run show ?thesis by simp
qed

theorem directory_failure_is_io_error_witness:
  "fst (makedirs (dirname ''ro/data/nexus.db'') True (fs readonly_dir)) = Inl PermissionError
   \<and> fst (initialize_database ''ro/data/nexus.db'' readonly_dir) = Inl (OSError PermissionError)
   \<and> fs (snd (initialize_database ''ro/data/nexus.db'' readonly_dir))
        (resolve ''ro/data/nexus.db'') = None"
proof -
  have mk: "fst (makedirs (dirname ''ro/data/nexus.db'') True (fs readonly_dir))
      = Inl PermissionError"
    by code_simp
  have "fs (snd (initialize_database ''ro/data/nexus.db'' readonly_dir))
      (resolve ''ro/data/nexus.db'') = None"
    by code_simp
  with directory_failure_is_io_error [OF mk] mk show ?thesis by simp
qed

section \<open>The relationship between tasks and goals\<close>



section \<open>Identifiers\<close>

text \<open>
  Claim C10.  In each of the five declarations the first column is
  \<^verbatim>\<open>id INTEGER PRIMARY KEY AUTOINCREMENT\<close>, and it is the only primary key.  Starting from
  the tables the initializer creates, whatever rows are inserted and deleted afterwards,
  an id that SQLite assigns is larger than the id of every row inserted into that table
  before, whether that row is still there or not.
\<close>

theorem autoincrement_ids_increase:
  "(\<forall>d\<in>set schema. hd (tbl_columns d) = Column ''id'' INTEGER [PrimaryKeyAutoincrement]
        \<and> filter is_pk (tbl_columns d) = [Column ''id'' INTEGER [PrimaryKeyAutoincrement]])
   \<and> (\<forall>xs. sorted_wrt later_is_larger (fst (apply_ops xs fresh_database)))"
  using schema_columns(4,5) apply_ops_sorted [OF fresh_database_autoincrement] by blast

theorem autoincrement_ids_increase_witness:
  "fst (apply_ops sample_ops fresh_database)
     = [Inserted ''goals'' 1 True, Inserted ''goals'' 2 True, Inserted ''goals'' 3 True,
        Inserted ''goals'' 10 False, Inserted ''goals'' 11 True]
   \<and> sorted_wrt later_is_larger (fst (apply_ops sample_ops fresh_database))"
proof -
  have "fst (apply_ops sample_ops fresh_database)
     = [Inserted ''goals'' 1 True, Inserted ''goals'' 2 True, Inserted ''goals'' 3 True,
        Inserted ''goals'' 10 False, Inserted ''goals'' 11 True]"
    by code_simp
  with autoincrement_ids_increase [THEN conjunct2, rule_format, of sample_ops] show ?thesis
    by (intro conjI)
qed

end
